theory Spec2Isabelle
  imports Complex_Main
begin

section \<open>Python values\<close>

text \<open>
  A Python \<open>str\<close> is a sequence of Unicode code points and \<open>bytes\<close> a sequence of
  octets.  Time stamps returned by \<open>time.time()\<close> are read as real numbers.  The
  exceptions are the ones the module raises or lets through.
\<close>

type_synonym str = "nat list"

type_synonym bytes = "char list"

definition str_of :: "string \<Rightarrow> str" where
  "str_of s = map of_char s"

datatype exn = APIError | NonZeroExitError int | UnicodeDecodeError | ValueError | OtherException

section \<open>The debounce decorator\<close>

text \<open>
  \<^verbatim>\<open>debounce(bounce_delay)(my_function)\<close> creates the cell \<open>old_time\<close> once and returns
  \<open>wrapped\<close>.  The cell is the first component of the state, the state \<open>my_function\<close>
  works on is the second.  The two readings of \<open>time.time()\<close> an invocation can make
  (on entry, and after \<open>my_function\<close> has returned) are given as the pair \<open>clock\<close>.
  A suppressed call returns Python's \<open>None\<close>; an exception of \<open>my_function\<close> leaves
  \<open>wrapped\<close> before the cell is written.
\<close>

definition wrapped ::
  "real \<Rightarrow> ('a \<Rightarrow> 'w \<Rightarrow> (exn + 'r) \<times> 'w) \<Rightarrow> real \<times> real \<Rightarrow> 'a \<Rightarrow>
     real option \<times> 'w \<Rightarrow> (exn + 'r option) \<times> real option \<times> 'w" where
  "wrapped bounce_delay my_function clock args s =
     (let old_time = fst s; w = snd s; new_time = fst clock in
      if (case old_time of None \<Rightarrow> True | Some t \<Rightarrow> new_time - t \<ge> bounce_delay) then
        (case my_function args w of
           (Inl e, w') \<Rightarrow> (Inl e, old_time, w')
         | (Inr result, w') \<Rightarrow> (Inr (Some result), Some (snd clock), w'))
      else (Inr None, old_time, w))"


text \<open>
  What an invocation of the gate did: it ran \<open>my_function\<close> unless it returned the
  sentinel; it ran it to completion when it returned its result.
\<close>

fun executed :: "exn + 'r option \<Rightarrow> bool" where
  "executed (Inr None) = False"
| "executed _ = True"

fun completed :: "exn + 'r option \<Rightarrow> bool" where
  "completed (Inr (Some _)) = True"
| "completed _ = False"


section \<open>String and path functions of the Python library\<close>

text \<open>
  \<^verbatim>\<open>str.startswith\<close>, \<^verbatim>\<open>str.endswith\<close>, \<^verbatim>\<open>str.replace\<close> for a one-character
  pattern, \<^verbatim>\<open>str.split(sep)\<close> and \<^verbatim>\<open>sep.join\<close>.  The slash is code point 47, the
  backslash 92, the dot 46.
\<close>

definition startswith :: "str \<Rightarrow> str \<Rightarrow> bool" where
  "startswith s p = (take (length p) s = p)"

definition endswith :: "str \<Rightarrow> str \<Rightarrow> bool" where
  "endswith s p = (length p \<le> length s \<and> drop (length s - length p) s = p)"

definition str_replace :: "nat \<Rightarrow> nat \<Rightarrow> str \<Rightarrow> str" where
  "str_replace old new s = map (\<lambda>c. if c = old then new else c) s"

fun str_split :: "nat \<Rightarrow> str \<Rightarrow> str list" where
  "str_split sep [] = [[]]"
| "str_split sep (c # cs) =
     (if c = sep then [] # str_split sep cs
      else (case str_split sep cs of [] \<Rightarrow> [[c]] | x # xs \<Rightarrow> (c # x) # xs))"

fun str_join :: "str \<Rightarrow> str list \<Rightarrow> str" where
  "str_join sep [] = []"
| "str_join sep [x] = x"
| "str_join sep (x # y # ys) = x @ sep @ str_join sep (y # ys)"

text \<open>
  \<^verbatim>\<open>posixpath.join(a, b)\<close>: an absolute \<open>b\<close> replaces the path; otherwise \<open>b\<close> is
  appended, after a slash unless the path is empty or ends with one.
\<close>

definition posixpath_join :: "str \<Rightarrow> str \<Rightarrow> str" where
  "posixpath_join a b =
     (if startswith b [47] then b
      else if a = [] \<or> endswith a [47] then a @ b
      else a @ [47] @ b)"

fun posixpath_join_all :: "str \<Rightarrow> str list \<Rightarrow> str" where
  "posixpath_join_all path [] = path"
| "posixpath_join_all path (b # p) = posixpath_join_all (posixpath_join path b) p"

text \<open>
  \<^verbatim>\<open>posixpath.normpath\<close>.  The loop over the components keeps the list \<open>new_comps\<close>;
  \<open>initial_slashes\<close> is 0, 1 or 2.
\<close>

fun normpath_loop :: "nat \<Rightarrow> str list \<Rightarrow> str list \<Rightarrow> str list" where
  "normpath_loop initial_slashes [] new_comps = new_comps"
| "normpath_loop initial_slashes (component # comps) new_comps =
     (if component = [] \<or> component = [46] then normpath_loop initial_slashes comps new_comps
      else if component \<noteq> [46, 46] \<or> (initial_slashes = 0 \<and> new_comps = []) \<or>
              (new_comps \<noteq> [] \<and> last new_comps = [46, 46])
        then normpath_loop initial_slashes comps (new_comps @ [component])
      else if new_comps \<noteq> [] then normpath_loop initial_slashes comps (butlast new_comps)
      else normpath_loop initial_slashes comps new_comps)"

definition normpath :: "str \<Rightarrow> str" where
  "normpath path =
     (if path = [] then [46]
      else
        let initial_slashes =
              (if startswith path [47] then
                 (if startswith path [47, 47] \<and> \<not> startswith path [47, 47, 47] then 2 else 1)
               else 0);
            comps = normpath_loop initial_slashes (str_split 47 path) [];
            path' = replicate initial_slashes 47 @ str_join [47] comps
        in if path' = [] then [46] else path')"

text \<open>\<^verbatim>\<open>posixpath.abspath\<close>, with the working directory \<^verbatim>\<open>os.getcwd()\<close> as \<open>cwd\<close>.\<close>

definition abspath :: "str \<Rightarrow> str \<Rightarrow> str" where
  "abspath cwd path = normpath (if startswith path [47] then path else posixpath_join cwd path)"

text \<open>
  \<^verbatim>\<open>genericpath.commonprefix\<close> of two lists scans the smaller list against the
  larger one up to the first difference: the longest common prefix.
\<close>

fun commonprefix :: "'a list \<Rightarrow> 'a list \<Rightarrow> 'a list" where
  "commonprefix (x # xs) (y # ys) = (if x = y then x # commonprefix xs ys else [])"
| "commonprefix _ _ = []"

text \<open>
  \<^verbatim>\<open>os.path.relpath(path, start)\<close> on a POSIX host (\<^verbatim>\<open>posixpath.relpath\<close>); an empty
  path raises \<^verbatim>\<open>ValueError\<close>.
\<close>

definition posix_relpath :: "str \<Rightarrow> str \<Rightarrow> str \<Rightarrow> exn + str" where
  "posix_relpath cwd path start =
     (if path = [] then Inl ValueError
      else
        let start_list = filter (\<lambda>x. x \<noteq> []) (str_split 47 (abspath cwd start));
            path_list = filter (\<lambda>x. x \<noteq> []) (str_split 47 (abspath cwd path));
            i = length (commonprefix start_list path_list);
            rel_list = replicate (length start_list - i) [46, 46] @ drop i path_list
        in case rel_list of
             [] \<Rightarrow> Inr [46]
           | a # p \<Rightarrow> Inr (posixpath_join_all a p))"

text \<open>
  A plain path component: a non-empty name without a slash that is neither \<open>.\<close> nor
  \<open>..\<close>.  The properties use it to say that a path lies below a directory.
\<close>

definition plain :: "str \<Rightarrow> bool" where
  "plain p = (p \<noteq> [] \<and> 47 \<notin> set p \<and> p \<noteq> [46] \<and> p \<noteq> [46, 46])"

section \<open>Decoding and stripping the command output\<close>

text \<open>
  \<^verbatim>\<open>bytes.decode('utf-8')\<close> accepts exactly the well-formed UTF-8 sequences (no
  overlong forms, no surrogates, nothing above U+10FFFF) and raises
  \<^verbatim>\<open>UnicodeDecodeError\<close> on anything else.
\<close>

definition continuation :: "nat \<Rightarrow> bool" where
  "continuation b = (128 \<le> b \<and> b \<le> 191)"

fun decode_utf8 :: "nat list \<Rightarrow> str option" where
  "decode_utf8 [] = Some []"
| "decode_utf8 (b0 # bs) =
     (if b0 < 128 then map_option (Cons b0) (decode_utf8 bs)
      else if 194 \<le> b0 \<and> b0 \<le> 223 then
        (case bs of
           b1 # r \<Rightarrow>
             if continuation b1
             then map_option (Cons ((b0 - 192) * 64 + (b1 - 128))) (decode_utf8 r)
             else None
         | _ \<Rightarrow> None)
      else if 224 \<le> b0 \<and> b0 \<le> 239 then
        (case bs of
           b1 # b2 # r \<Rightarrow>
             if (if b0 = 224 then 160 else 128) \<le> b1 \<and> b1 \<le> (if b0 = 237 then 159 else 191) \<and>
                continuation b2
             then map_option
                    (Cons ((b0 - 224) * 4096 + (b1 - 128) * 64 + (b2 - 128))) (decode_utf8 r)
             else None
         | _ \<Rightarrow> None)
      else if 240 \<le> b0 \<and> b0 \<le> 244 then
        (case bs of
           b1 # b2 # b3 # r \<Rightarrow>
             if (if b0 = 240 then 144 else 128) \<le> b1 \<and> b1 \<le> (if b0 = 244 then 143 else 191) \<and>
                continuation b2 \<and> continuation b3
             then map_option
                    (Cons ((b0 - 240) * 262144 + (b1 - 128) * 4096 + (b2 - 128) * 64 + (b3 - 128)))
                    (decode_utf8 r)
             else None
         | _ \<Rightarrow> None)
      else None)"

definition decode :: "bytes \<Rightarrow> exn + str" where
  "decode b = (case decode_utf8 (map of_char b) of
                 None \<Rightarrow> Inl UnicodeDecodeError
               | Some s \<Rightarrow> Inr s)"

text \<open>\<^verbatim>\<open>str.strip()\<close> removes the leading and trailing characters that \<^verbatim>\<open>str.isspace\<close> accepts.\<close>

definition isspace :: "nat \<Rightarrow> bool" where
  "isspace c = ((9 \<le> c \<and> c \<le> 13) \<or> (28 \<le> c \<and> c \<le> 32) \<or> c = 133 \<or> c = 160 \<or>
                c = 5760 \<or> (8192 \<le> c \<and> c \<le> 8202) \<or> c = 8232 \<or> c = 8233 \<or>
                c = 8239 \<or> c = 8287 \<or> c = 12288)"

definition strip :: "str \<Rightarrow> str" where
  "strip s = rev (dropWhile isspace (rev (dropWhile isspace s)))"


section \<open>The container and the notification\<close>

text \<open>
  \<^verbatim>\<open>container.exec_run(argv, privileged=...)\<close> returns an \<^verbatim>\<open>ExecResult\<close> with an
  exit code and the captured output, or raises \<^verbatim>\<open>docker.errors.APIError\<close>, or raises
  an exception of another class (a connection error of the transport, for one).  The
  world records every call of \<open>exec_run\<close> and every log record, in order.
\<close>

datatype exec_outcome = ExecResult int bytes | Raises_APIError | Raises_other

record container =
  name :: str
  exec_run :: "str list \<Rightarrow> bool \<Rightarrow> exec_outcome"

record exec_call =
  container_name :: str
  argv :: "str list"
  privileged :: bool

datatype log_record =
    Info_notifying str str
  | Info_output str
  | Error_failed_to_notify str str
  | Error_non_zero_exit int

record world =
  exec_calls :: "exec_call list"
  logged :: "log_record list"

text \<open>
  The event handler of the watchdog library, as \<^verbatim>\<open>__init__\<close> configures it, and the
  fields of a \<^verbatim>\<open>ContainerNotifier\<close>.
\<close>

record PatternMatchingEventHandler =
  ignore_patterns :: "str list"
  ignore_directories :: bool

record ContainerNotifier =
  container :: container
  host_dir :: str
  container_dir :: str
  event_handler :: PatternMatchingEventHandler

definition logging :: "log_record \<Rightarrow> world \<Rightarrow> world" where
  "logging r w = w\<lparr>logged := logged w @ [r]\<rparr>"

text \<open>One call of \<open>exec_run\<close> with \<^verbatim>\<open>privileged=True\<close>: the call is recorded, then it returns or raises.\<close>

definition run_privileged :: "container \<Rightarrow> str list \<Rightarrow> world \<Rightarrow> (exn + int \<times> bytes) \<times> world" where
  "run_privileged c args w =
     (let w' = w\<lparr>exec_calls := exec_calls w @
                   [\<lparr>container_name = name c, argv = args, privileged = True\<rparr>]\<rparr>
      in case exec_run c args True of
           Raises_APIError \<Rightarrow> (Inl APIError, w')
         | Raises_other \<Rightarrow> (Inl OtherException, w')
         | ExecResult exit_code output \<Rightarrow> (Inr (exit_code, output), w'))"

text \<open>
  An \<^verbatim>\<open>ExecResult\<close> is a named tuple of two fields, so \<^verbatim>\<open>if response:\<close> tests a
  non-empty tuple.
\<close>

definition truthy :: "int \<times> bytes \<Rightarrow> bool" where
  "truthy response = True"

text \<open>The body of the \<^verbatim>\<open>try\<close> statement of \<open>notify\<close>.\<close>

definition notify_try :: "container \<Rightarrow> str \<Rightarrow> world \<Rightarrow> (exn + unit) \<times> world" where
  "notify_try c absolute_path w =
     (case run_privileged c [str_of ''stat'', str_of ''-c'', str_of ''%a'', absolute_path] w of
        (Inl e, w1) \<Rightarrow> (Inl e, w1)
      | (Inr permissions, w1) \<Rightarrow>
          if fst permissions \<noteq> 0 then (Inl (NonZeroExitError (fst permissions)), w1)
          else
            (case decode (snd permissions) of
               Inl e \<Rightarrow> (Inl e, w1)
             | Inr text \<Rightarrow>
                 (case run_privileged c [str_of ''chmod'', strip text, absolute_path] w1 of
                    (Inl e, w2) \<Rightarrow> (Inl e, w2)
                  | (Inr response, w2) \<Rightarrow>
                      if fst response \<noteq> 0 then (Inl (NonZeroExitError (fst response)), w2)
                      else if truthy response then
                        (case decode (snd response) of
                           Inl e \<Rightarrow> (Inl e, w2)
                         | Inr text' \<Rightarrow> (Inr (), logging (Info_output (strip text')) w2))
                      else (Inr (), w2))))"

text \<open>\<open>notify\<close>: the first log record, the \<^verbatim>\<open>try\<close> body and its two \<^verbatim>\<open>except\<close> clauses.\<close>

definition notify :: "ContainerNotifier \<Rightarrow> str \<Rightarrow> world \<Rightarrow> (exn + unit) \<times> world" where
  "notify self absolute_path w =
     (let c = container self in
      case notify_try c absolute_path (logging (Info_notifying (name c) absolute_path) w) of
        (Inl APIError, w') \<Rightarrow>
          (Inr (), logging (Error_failed_to_notify (name c) absolute_path) w')
      | (Inl (NonZeroExitError exit_code), w') \<Rightarrow>
          (Inr (), logging (Error_non_zero_exit exit_code) w')
      | (Inl e, w') \<Rightarrow> (Inl e, w')
      | (Inr u, w') \<Rightarrow> (Inr (), w'))"

section \<open>Events and the change handler\<close>

text \<open>
  A file system event of the watchdog library.  Only a move event has the attribute
  \<^verbatim>\<open>dest_path\<close>.
\<close>

datatype event_type = Created | Modified | Moved | Deleted

record event =
  event_type :: event_type
  is_directory :: bool
  src_path :: str
  dest_path :: "str option"

text \<open>
  The function under the decorator.  \<^verbatim>\<open>os.path.relpath\<close> belongs to the host platform
  and is the parameter \<open>relpath\<close>; the backslash is code point 92.
\<close>

definition change_handler_function ::
  "(str \<Rightarrow> str \<Rightarrow> exn + str) \<Rightarrow> ContainerNotifier \<times> event \<Rightarrow> world \<Rightarrow> (exn + unit) \<times> world" where
  "change_handler_function relpath args w =
     (let self = fst args; event = snd args;
          host_path = (case dest_path event of Some d \<Rightarrow> d | None \<Rightarrow> src_path event)
      in case relpath host_path (host_dir self) of
           Inl e \<Rightarrow> (Inl e, w)
         | Inr rel \<Rightarrow>
             let relative_host_path = str_replace 92 47 rel;
                 absolute_path = posixpath_join (container_dir self) relative_host_path
             in notify self absolute_path w)"

text \<open>
  \<^verbatim>\<open>@debounce(2)\<close> is applied once, in the class body: the method every instance calls
  is the one \<open>wrapped\<close> with its one \<open>old_time\<close> cell, and \<open>self\<close> is the first argument.
\<close>

definition change_handler ::
  "(str \<Rightarrow> str \<Rightarrow> exn + str) \<Rightarrow> real \<times> real \<Rightarrow> ContainerNotifier \<Rightarrow> event \<Rightarrow>
     real option \<times> world \<Rightarrow> (exn + unit option) \<times> real option \<times> world" where
  "change_handler relpath clock self event =
     wrapped 2 (change_handler_function relpath) clock (self, event)"

text \<open>The path translation of the change handler on its own.\<close>

definition translate :: "(str \<Rightarrow> str \<Rightarrow> exn + str) \<Rightarrow> str \<Rightarrow> str \<Rightarrow> str \<Rightarrow> exn + str" where
  "translate relpath host_dir' container_dir' host_path =
     (case relpath host_path host_dir' of
        Inl e \<Rightarrow> Inl e
      | Inr rel \<Rightarrow> Inr (posixpath_join container_dir' (str_replace 92 47 rel)))"

section \<open>Construction and event dispatch\<close>

text \<open>
  \<^verbatim>\<open>__init__\<close>: an absent or empty \<open>exclude_patterns\<close> becomes the empty list, and the
  handler is built with \<^verbatim>\<open>ignore_directories=False\<close>.  Starting the observer is left out.
\<close>

definition init :: "container \<Rightarrow> str \<Rightarrow> str \<Rightarrow> str list option \<Rightarrow> ContainerNotifier" where
  "init c host_dir' container_dir' exclude_patterns =
     (let exclude_patterns' =
            (case exclude_patterns of None \<Rightarrow> [] | Some ps \<Rightarrow> if ps \<noteq> [] then ps else [])
      in \<lparr>container = c, host_dir = host_dir', container_dir = container_dir',
          event_handler = \<lparr>ignore_patterns = exclude_patterns', ignore_directories = False\<rparr>\<rparr>)"

text \<open>
  \<^verbatim>\<open>PatternMatchingEventHandler.dispatch\<close> of the watchdog library: a directory event is
  dropped when \<open>ignore_directories\<close> is set; the paths of the event are its destination
  path, when it has one, and its non-empty source path; the event goes on when one of
  them matches no ignore pattern (no include patterns are given, so every path is
  included).  The glob matcher of the library is the parameter \<open>matches\<close>, applied to a
  path and a pattern.
\<close>

definition event_paths :: "event \<Rightarrow> str list" where
  "event_paths e =
     (case dest_path e of Some d \<Rightarrow> [d] | None \<Rightarrow> []) @
     (if src_path e \<noteq> [] then [src_path e] else [])"

definition match_any_paths :: "(str \<Rightarrow> str \<Rightarrow> bool) \<Rightarrow> str list \<Rightarrow> str list \<Rightarrow> bool" where
  "match_any_paths matches paths excluded =
     list_ex (\<lambda>p. \<not> list_ex (\<lambda>pat. matches p pat) excluded) paths"

definition passes :: "(str \<Rightarrow> str \<Rightarrow> bool) \<Rightarrow> PatternMatchingEventHandler \<Rightarrow> event \<Rightarrow> bool" where
  "passes matches h e =
     (if ignore_directories h \<and> is_directory e then False
      else match_any_paths matches (event_paths e) (ignore_patterns h))"

text \<open>
  What reaches the handler: \<open>on_created\<close>, \<open>on_moved\<close> and \<open>on_modified\<close> are the change
  handler, \<open>on_deleted\<close> keeps the library's empty method.  \<open>None\<close> says that the change
  handler was not called.
\<close>

definition dispatch ::
  "(str \<Rightarrow> str \<Rightarrow> bool) \<Rightarrow> (str \<Rightarrow> str \<Rightarrow> exn + str) \<Rightarrow> real \<times> real \<Rightarrow> ContainerNotifier \<Rightarrow>
     event \<Rightarrow> real option \<times> world \<Rightarrow> (exn + unit option) option \<times> real option \<times> world" where
  "dispatch matches relpath clock self e s =
     (if passes matches (event_handler self) e then
        (case event_type e of
           Deleted \<Rightarrow> (None, s)
         | _ \<Rightarrow> (let (r, s') = change_handler relpath clock self e s in (Some r, s')))
      else (None, s))"

text \<open>
  A glob matcher for patterns made of literal characters, \<open>*\<close> (code point 42, any
  sequence of characters) and \<open>?\<close> (code point 63, any one character), applied to a
  pattern and a path.  It stands for the library's matcher in the examples.
\<close>

fun glob :: "str \<Rightarrow> str \<Rightarrow> bool" where
  "glob [] [] = True"
| "glob [] (c # cs) = False"
| "glob (p # ps) [] = (p = 42 \<and> glob ps [])"
| "glob (p # ps) (c # cs) =
     (if p = 42 then glob ps (c # cs) \<or> glob (p # ps) cs
      else (p = 63 \<or> p = c) \<and> glob ps cs)"

section \<open>Properties of the gate\<close>

lemma wrapped_suppressed:
  "t + d > fst clock \<Longrightarrow> wrapped d f clock a (Some t, w) = (Inr None, Some t, w)"
  by (simp add: wrapped_def)
















section \<open>Properties of the notification\<close>

lemmas notify_defs = notify_def notify_try_def run_privileged_def logging_def truthy_def Let_def

text \<open>
  Claim C3.  When the \<open>stat\<close> step returns a non-zero exit code, \<open>notify\<close> returns
  normally; the only command run is the \<open>stat\<close> command (no \<open>chmod\<close>), and the log
  gains the notification record and the error record with that exit code.
\<close>

theorem notify_stat_failure:
  assumes "exec_run (container self) [str_of ''stat'', str_of ''-c'', str_of ''%a'', p] True =
             ExecResult code out"
    and "code \<noteq> 0"
  shows "notify self p w =
     (Inr (),
      w\<lparr>exec_calls := exec_calls w @
           [\<lparr>container_name = name (container self),
             argv = [str_of ''stat'', str_of ''-c'', str_of ''%a'', p], privileged = True\<rparr>],
        logged := logged w @
           [Info_notifying (name (container self)) p, Error_non_zero_exit code]\<rparr>)"
  using assms by (simp add: notify_defs)




theorem notify_stat_failure_witness:
  "notify (init \<lparr>name = str_of ''web'', exec_run = (\<lambda>args priv. ExecResult 1 [])\<rparr>
             (str_of ''/home/u/proj'') (str_of ''/app'') None)
     (str_of ''/app/a.txt'') \<lparr>exec_calls = [], logged = []\<rparr> =
   (Inr (),
    \<lparr>exec_calls =
       [\<lparr>container_name = str_of ''web'',
         argv = [str_of ''stat'', str_of ''-c'', str_of ''%a'', str_of ''/app/a.txt''],
         privileged = True\<rparr>],
     logged = [Info_notifying (str_of ''web'') (str_of ''/app/a.txt''), Error_non_zero_exit 1]\<rparr>)"
  using notify_stat_failure [where
      self = "init \<lparr>name = str_of ''web'', exec_run = (\<lambda>args priv. ExecResult 1 [])\<rparr>
             (str_of ''/home/u/proj'') (str_of ''/app'') None"
      and p = "str_of ''/app/a.txt''" and code = 1 and out = "[]"
      and w = "\<lparr>exec_calls = [], logged = []\<rparr>"]
  by (simp add: init_def)







section \<open>Properties of the change handler\<close>

lemma translate_b:
  "translate (posix_relpath (str_of ''/'')) (str_of ''/H'') (str_of ''/app'') (str_of ''/H/b.txt'') =
     Inr (str_of ''/app/b.txt'')"
  by code_simp

lemma wrapped_completed_state:
  "completed (fst (wrapped d f c a s)) \<Longrightarrow> \<exists>w'. snd (wrapped d f c a s) = (Some (snd c), w')"
  by (auto simp: wrapped_def Let_def split: if_splits prod.splits sum.splits option.splits)

lemma set_str_join: "set (str_join sep ps) \<subseteq> set sep \<union> \<Union> (set ` set ps)"
  by (induction sep ps rule: str_join.induct) auto

lemma str_replace_append: "str_replace a b (xs @ ys) = str_replace a b xs @ str_replace a b ys"
  by (simp add: str_replace_def)

lemma str_replace_id: "a \<notin> set xs \<Longrightarrow> str_replace a b xs = xs"
  by (induction xs) (auto simp: str_replace_def)

lemma str_replace_join:
  assumes "sep = 47 \<or> sep = 92" and "\<forall>p \<in> set ps. 92 \<notin> set p"
  shows "str_replace 92 47 (str_join [sep] ps) = str_join [47] ps"
  using assms
proof (induction "[sep]" ps rule: str_join.induct)
  case 1
  then show ?case by (simp add: str_replace_def)
next
  case (2 x)
  then show ?case by (simp add: str_replace_id)
next
  case (3 x y ys)
  then have a: "str_replace 92 47 (str_join [sep] (y # ys)) = str_join [47] (y # ys)" by simp
  from 3 have b: "str_replace 92 47 x = x" by (simp add: str_replace_id)
  from 3 have c: "str_replace 92 47 [sep] = [47]" by (auto simp: str_replace_def)
  show ?case by (simp only: str_join.simps str_replace_append a b c)
qed

lemma str_join_hd:
  "ps \<noteq> [] \<Longrightarrow> hd ps \<noteq> [] \<Longrightarrow> str_join sep ps \<noteq> [] \<and> hd (str_join sep ps) = hd (hd ps)"
  by (induction sep ps rule: str_join.induct) auto

lemma startswith_single: "startswith s [c] = (s \<noteq> [] \<and> hd s = c)"
  by (cases s) (auto simp: startswith_def)

lemma str_split_nonempty: "str_split sep s \<noteq> []"
  by (induction s) (auto split: list.splits)

lemma str_split_append:
  "str_split sep (xs @ [sep] @ ys) = str_split sep xs @ str_split sep ys"
proof (induction xs)
  case Nil
  then show ?case by simp
next
  case (Cons x xs)
  show ?case
  proof (cases "x = sep")
    case True
    with Cons show ?thesis by simp
  next
    case False
    obtain a as where s: "str_split sep xs = a # as"
      using str_split_nonempty [of sep xs] by (cases "str_split sep xs") auto
    with False Cons show ?thesis by simp
  qed
qed

lemma str_split_plain: "sep \<notin> set p \<Longrightarrow> str_split sep p = [p]"
  by (induction p) auto

lemma str_split_join:
  "ps \<noteq> [] \<Longrightarrow> \<forall>p \<in> set ps. 47 \<notin> set p \<Longrightarrow> str_split 47 (str_join [47] ps) = ps"
proof (induction "[47::nat]" ps rule: str_join.induct)
  case 1
  then show ?case by simp
next
  case (2 x)
  then show ?case by (simp add: str_split_plain)
next
  case (3 x y ys)
  then have "str_split 47 (str_join [47] (y # ys)) = y # ys" by simp
  moreover from 3 have "str_split 47 x = [x]" by (simp add: str_split_plain)
  ultimately show ?case using str_split_append [of 47 x "str_join [47] (y # ys)"] by simp
qed

lemma normpath_loop_append:
  "normpath_loop i (xs @ ys) acc = normpath_loop i ys (normpath_loop i xs acc)"
  by (induction xs arbitrary: acc) simp_all

lemma normpath_loop_plain:
  "\<forall>p \<in> set ps. plain p \<Longrightarrow> normpath_loop i ps acc = acc @ ps"
  by (induction ps arbitrary: acc) (simp_all add: plain_def)

lemma normpath_loop_absolute: "0 < i \<Longrightarrow> normpath_loop i xs acc = normpath_loop (Suc 0) xs acc"
  by (induction xs arbitrary: acc) simp_all

lemma str_split_no_sep: "\<forall>p \<in> set (str_split sep s). sep \<notin> set p"
  by (induction s) (auto split: list.splits)

lemma normpath_loop_clean:
  "\<forall>p \<in> set acc. p \<noteq> [] \<and> 47 \<notin> set p \<Longrightarrow> \<forall>p \<in> set xs. 47 \<notin> set p \<Longrightarrow>
     \<forall>p \<in> set (normpath_loop i xs acc). p \<noteq> [] \<and> 47 \<notin> set p"
proof (induction xs arbitrary: acc)
  case Nil
  then show ?case by simp
next
  case (Cons c cs)
  have b: "\<forall>p \<in> set (butlast acc). p \<noteq> [] \<and> 47 \<notin> set p"
    using Cons.prems(1) by (auto dest: in_set_butlastD)
  have a: "c \<noteq> [] \<Longrightarrow> \<forall>p \<in> set (acc @ [c]). p \<noteq> [] \<and> 47 \<notin> set p"
    using Cons.prems by auto
  from Cons.prems(2) have rest: "\<forall>p \<in> set cs. 47 \<notin> set p" by simp
  show ?case
    using Cons.IH [OF Cons.prems(1) rest] Cons.IH [OF b rest] Cons.IH [OF a rest]
    by simp
qed

lemma str_split_replicate:
  "str_split sep (replicate i sep @ s) = replicate i [] @ str_split sep s"
  by (induction i) simp_all

lemma filter_split_join:
  assumes "\<forall>p \<in> set L. p \<noteq> [] \<and> 47 \<notin> set p"
  shows "filter (\<lambda>x. x \<noteq> []) (str_split 47 (str_join [47] L)) = L"
proof (cases "L = []")
  case True
  then show ?thesis by simp
next
  case False
  with assms have "str_split 47 (str_join [47] L) = L" by (simp add: str_split_join)
  moreover from assms have "filter (\<lambda>x. x \<noteq> []) L = L" by (simp add: filter_id_conv)
  ultimately show ?thesis by simp
qed

lemma startswith_cons: "startswith (x # xs) [c] = (x = c)"
  by (simp add: startswith_def)

lemma components_absolute:
  assumes "startswith X [47]"
  shows "filter (\<lambda>x. x \<noteq> []) (str_split 47 (normpath X)) =
           normpath_loop (Suc 0) (str_split 47 X) []"
proof -
  define i :: nat where
    "i = (if startswith X [47, 47] \<and> \<not> startswith X [47, 47, 47] then 2 else 1)"
  define L where "L = normpath_loop (Suc 0) (str_split 47 X) []"
  have pos: "0 < i" by (simp add: i_def)
  from assms have ne: "X \<noteq> []" by (auto simp: startswith_def)
  have loop: "normpath_loop i (str_split 47 X) [] = L"
    using pos unfolding L_def by (rule normpath_loop_absolute)
  have clean: "\<forall>p \<in> set L. p \<noteq> [] \<and> 47 \<notin> set p"
    unfolding L_def using str_split_no_sep [of 47 X]
    by (intro normpath_loop_clean) simp_all
  from pos have "replicate i (47::nat) @ str_join [47] L \<noteq> []" by (cases i) simp_all
  then have n: "normpath X = replicate i 47 @ str_join [47] L"
    using assms ne loop by (simp add: normpath_def i_def Let_def)
  have "filter (\<lambda>x. x \<noteq> []) (str_split 47 (replicate i 47 @ str_join [47] L)) = L"
    using filter_split_join [OF clean] by (simp add: str_split_replicate)
  with n show ?thesis by (simp add: L_def)
qed

lemma commonprefix_append: "commonprefix L (L @ ps) = L"
  by (induction L) simp_all

lemma str_join_cons:
  "str_join sep (x # xs) = (if xs = [] then x else x @ sep @ str_join sep xs)"
  by (cases xs) simp_all

lemma plain_last:
  assumes "plain b"
  shows "last b \<noteq> 47"
proof
  assume "last b = 47"
  moreover from assms have "b \<noteq> []" by (simp add: plain_def)
  then have "last b \<in> set b" by (rule last_in_set)
  ultimately have "47 \<in> set b" by simp
  with assms show False by (simp add: plain_def)
qed

lemma posixpath_join_plain:
  assumes "path \<noteq> []" and "last path \<noteq> 47" and "plain b"
  shows "posixpath_join path b = path @ [47] @ b"
proof -
  from assms(3) have "\<not> startswith b [47]"
    by (cases b) (auto simp: plain_def startswith_def)
  moreover from assms(1,2) have "\<not> endswith path [47]"
    by (cases path rule: rev_cases) (auto simp: endswith_def)
  ultimately show ?thesis using assms(1) by (simp add: posixpath_join_def)
qed

lemma posixpath_join_all_plain:
  "path \<noteq> [] \<Longrightarrow> last path \<noteq> 47 \<Longrightarrow> \<forall>p \<in> set ps. plain p \<Longrightarrow>
     posixpath_join_all path ps = str_join [47] (path # ps)"
proof (induction ps arbitrary: path)
  case Nil
  then show ?case by simp
next
  case (Cons b ps)
  from Cons.prems have b: "plain b" by simp
  then have j: "posixpath_join path b = path @ [47] @ b"
    using Cons.prems(1,2) by (rule posixpath_join_plain [rotated 2])
  from b have "path @ [47] @ b \<noteq> []" "last (path @ [47] @ b) \<noteq> 47"
    using plain_last [of b] by (simp_all add: plain_def)
  with Cons have "posixpath_join_all (path @ [47] @ b) ps = str_join [47] ((path @ [47] @ b) # ps)"
    by simp
  with j show ?case by (simp add: str_join_cons)
qed

lemma posix_relpath_under:
  assumes "startswith H [47]" and "ps \<noteq> []" and "\<forall>p \<in> set ps. plain p"
  shows "posix_relpath cwd (H @ [47] @ str_join [47] ps) H = Inr (str_join [47] ps)"
proof -
  define P where "P = H @ [47] @ str_join [47] ps"
  define L where "L = normpath_loop (Suc 0) (str_split 47 H) []"
  from assms(1) have absP: "startswith P [47]" and neP: "P \<noteq> []"
    by (cases H; simp add: P_def startswith_def)+
  from assms(3) have noslash: "\<forall>p \<in> set ps. 47 \<notin> set p" by (simp add: plain_def)
  have "str_split 47 P = str_split 47 H @ ps"
    unfolding P_def using str_split_append [of 47 H "str_join [47] ps"] assms(2) noslash
    by (simp add: str_split_join)
  then have "normpath_loop (Suc 0) (str_split 47 P) [] = L @ ps"
    using assms(3) by (simp add: normpath_loop_append normpath_loop_plain L_def)
  then have path_list: "filter (\<lambda>x. x \<noteq> []) (str_split 47 (abspath cwd P)) = L @ ps"
    using absP by (simp add: abspath_def components_absolute)
  have start_list: "filter (\<lambda>x. x \<noteq> []) (str_split 47 (abspath cwd H)) = L"
    using assms(1) by (simp add: abspath_def components_absolute L_def)
  obtain a p where ps: "ps = a # p" using assms(2) by (cases ps) auto
  with assms(3) have "plain a" and rest: "\<forall>q \<in> set p. plain q" by simp_all
  then have "a \<noteq> []" and "last a \<noteq> 47"
    using plain_last [of a] by (simp_all add: plain_def)
  then have j: "posixpath_join_all a p = str_join [47] (a # p)"
    using rest by (rule posixpath_join_all_plain)
  have "posix_relpath cwd P H = Inr (str_join [47] ps)"
    using neP path_list start_list ps j
    by (simp add: posix_relpath_def commonprefix_append Let_def)
  then show ?thesis by (simp add: P_def)
qed

lemma posixpath_join_relative:
  assumes "ps \<noteq> []" and "\<forall>p \<in> set ps. p \<noteq> [] \<and> 47 \<notin> set p" and "startswith C [47]"
  shows "posixpath_join C (str_join [47] ps) =
           C @ (if endswith C [47] then [] else [47]) @ str_join [47] ps"
proof -
  from assms(1,2) have first: "hd ps \<noteq> [] \<and> hd (hd ps) \<noteq> 47"
    by (cases ps) (auto dest: hd_in_set)
  with assms(1) have rel: "\<not> startswith (str_join [47] ps) [47]"
    using str_join_hd [of ps "[47]"] by (simp add: startswith_single)
  from assms(3) have "C \<noteq> [] \<and> hd C = 47" by (simp add: startswith_single)
  with rel show ?thesis by (simp add: posixpath_join_def)
qed

lemma str_replace_clean: "a \<noteq> b \<Longrightarrow> a \<notin> set (str_replace a b s)"
  by (auto simp: str_replace_def)

text \<open>
  Claim C2, as stated, fails on a POSIX host for a file name that holds a backslash
  (code point 92).  Take the file in \<open>/H\<close> whose name is \<open>a\<close>, a backslash and \<open>b.txt\<close>:
  its path relative to \<open>/H\<close> is that name, and \<open>/app\<close> joined to it keeps the
  backslash, but the handler replaces it and notifies \<open>/app/a/b.txt\<close>.
\<close>

theorem backslash_in_name_replaced:
  "posix_relpath (str_of ''/'') (str_of ''/H/a'' @ [92] @ str_of ''b.txt'') (str_of ''/H'') =
     Inr (str_of ''a'' @ [92] @ str_of ''b.txt'') \<and>
   posixpath_join (str_of ''/app'') (str_of ''a'' @ [92] @ str_of ''b.txt'') =
     str_of ''/app/a'' @ [92] @ str_of ''b.txt'' \<and>
   change_handler_function (posix_relpath (str_of ''/''))
     (init \<lparr>name = str_of ''web'', exec_run = (\<lambda>args priv. ExecResult 1 [])\<rparr>
        (str_of ''/H'') (str_of ''/app'') None,
      \<lparr>event_type = Modified, is_directory = False,
        src_path = str_of ''/H/a'' @ [92] @ str_of ''b.txt'', dest_path = None\<rparr>)
     \<lparr>exec_calls = [], logged = []\<rparr> =
   (Inr (),
    \<lparr>exec_calls =
       [\<lparr>container_name = str_of ''web'',
         argv = [str_of ''stat'', str_of ''-c'', str_of ''%a'', str_of ''/app/a/b.txt''],
         privileged = True\<rparr>],
     logged = [Info_notifying (str_of ''web'') (str_of ''/app/a/b.txt''), Error_non_zero_exit 1]\<rparr>)"
  by code_simp

text \<open>
  Claim C2, amended.  The change handler notifies the POSIX join of the container
  directory and the path of the host path relative to the host directory in which
  every backslash has been replaced by a slash, be it a separator of the host or part
  of a name.  When the platform's \<open>relpath\<close> returns the components below the host
  directory joined by the host separator, slash or backslash, and no component holds a
  backslash of its own, the notified path is the container directory (POSIX-absolute),
  a slash unless it ends with one, and the components joined by slashes.  On a POSIX
  host this holds for every host path made of an absolute host directory, a slash and
  plain components without backslash.
\<close>

theorem change_handler_translates:
  "(\<forall>relpath self e w rel.
      relpath (case dest_path e of Some d \<Rightarrow> d | None \<Rightarrow> src_path e) (host_dir self) = Inr rel \<longrightarrow>
      change_handler_function relpath (self, e) w =
        notify self (posixpath_join (container_dir self) (str_replace 92 47 rel)) w \<and>
      92 \<notin> set (str_replace 92 47 rel)) \<and>
   (\<forall>relpath self e w sep ps.
      relpath (case dest_path e of Some d \<Rightarrow> d | None \<Rightarrow> src_path e) (host_dir self) =
        Inr (str_join [sep] ps) \<and>
      (sep = 47 \<or> sep = 92) \<and> ps \<noteq> [] \<and>
      (\<forall>p \<in> set ps. p \<noteq> [] \<and> 47 \<notin> set p \<and> 92 \<notin> set p) \<and>
      startswith (container_dir self) [47] \<longrightarrow>
      change_handler_function relpath (self, e) w =
        notify self
          (container_dir self @ (if endswith (container_dir self) [47] then [] else [47]) @
           str_join [47] ps) w) \<and>
   (\<forall>cwd self e w ps.
      startswith (host_dir self) [47] \<and> startswith (container_dir self) [47] \<and> ps \<noteq> [] \<and>
      (\<forall>p \<in> set ps. plain p \<and> 92 \<notin> set p) \<and>
      (case dest_path e of Some d \<Rightarrow> d | None \<Rightarrow> src_path e) =
        host_dir self @ [47] @ str_join [47] ps \<longrightarrow>
      change_handler_function (posix_relpath cwd) (self, e) w =
        notify self
          (container_dir self @ (if endswith (container_dir self) [47] then [] else [47]) @
           str_join [47] ps) w)"
proof (intro conjI allI impI, goal_cases)
  case (1 relpath self e w rel)
  then show ?case by (simp add: change_handler_function_def)
next
  case (2 relpath self e w rel)
  show ?case by (simp add: str_replace_clean)
next
  case (3 relpath self e w sep ps)
  then have c: "\<forall>p \<in> set ps. 92 \<notin> set p" and s: "sep = 47 \<or> sep = 92" by blast+
  from s c have rj: "str_replace 92 47 (str_join [sep] ps) = str_join [47] ps"
    by (rule str_replace_join)
  have pj: "posixpath_join (container_dir self) (str_join [47] ps) =
      container_dir self @ (if endswith (container_dir self) [47] then [] else [47]) @
      str_join [47] ps"
    using 3 by (intro posixpath_join_relative) auto
  from 3 show ?case by (simp add: change_handler_function_def rj pj)
next
  case (4 cwd self e w ps)
  then have pl: "\<forall>p \<in> set ps. plain p" and c: "\<forall>p \<in> set ps. 92 \<notin> set p"
    and n: "ps \<noteq> []" and h: "startswith (host_dir self) [47]"
    by blast+
  have r: "posix_relpath cwd (host_dir self @ [47] @ str_join [47] ps) (host_dir self) =
      Inr (str_join [47] ps)"
    using h n pl by (rule posix_relpath_under)
  have s: "(47::nat) = 47 \<or> (47::nat) = 92" by simp
  from s c have rj: "str_replace 92 47 (str_join [47] ps) = str_join [47] ps"
    by (rule str_replace_join)
  have pj: "posixpath_join (container_dir self) (str_join [47] ps) =
      container_dir self @ (if endswith (container_dir self) [47] then [] else [47]) @
      str_join [47] ps"
    using 4 by (intro posixpath_join_relative) (auto simp: plain_def)
  from 4 r show ?case by (simp add: change_handler_function_def rj pj)
qed

theorem change_handler_translates_witness:
  "change_handler_function (posix_relpath (str_of ''/''))
     (init \<lparr>name = str_of ''web'', exec_run = (\<lambda>args priv. ExecResult 1 [])\<rparr>
        (str_of ''/home/u/proj'') (str_of ''/app'') None,
      \<lparr>event_type = Modified, is_directory = False,
        src_path = str_of ''/home/u/proj/src/main.py'', dest_path = None\<rparr>)
     \<lparr>exec_calls = [], logged = []\<rparr> =
   (Inr (),
    \<lparr>exec_calls =
       [\<lparr>container_name = str_of ''web'',
         argv = [str_of ''stat'', str_of ''-c'', str_of ''%a'', str_of ''/app/src/main.py''],
         privileged = True\<rparr>],
     logged = [Info_notifying (str_of ''web'') (str_of ''/app/src/main.py''),
               Error_non_zero_exit 1]\<rparr>) \<and>
   change_handler_function (\<lambda>path start. Inr (drop (Suc (length start)) path))
     (init \<lparr>name = str_of ''web'', exec_run = (\<lambda>args priv. ExecResult 1 [])\<rparr>
        (str_of ''C:'' @ [92] @ str_of ''proj'') (str_of ''/app'') None,
      \<lparr>event_type = Modified, is_directory = False,
        src_path = str_of ''C:'' @ [92] @ str_of ''proj'' @ [92] @ str_of ''src'' @ [92] @
                   str_of ''main.py'',
        dest_path = None\<rparr>)
     \<lparr>exec_calls = [], logged = []\<rparr> =
   (Inr (),
    \<lparr>exec_calls =
       [\<lparr>container_name = str_of ''web'',
         argv = [str_of ''stat'', str_of ''-c'', str_of ''%a'', str_of ''/app/src/main.py''],
         privileged = True\<rparr>],
     logged = [Info_notifying (str_of ''web'') (str_of ''/app/src/main.py''),
               Error_non_zero_exit 1]\<rparr>)"
proof -
  let ?c = "\<lparr>name = str_of ''web'', exec_run = (\<lambda>args priv. ExecResult 1 [])\<rparr>"
  let ?n = "init ?c (str_of ''/home/u/proj'') (str_of ''/app'') None"
  let ?e = "\<lparr>event_type = Modified, is_directory = False,
        src_path = str_of ''/home/u/proj/src/main.py'', dest_path = None\<rparr>"
  let ?m = "init ?c (str_of ''C:'' @ [92] @ str_of ''proj'') (str_of ''/app'') None"
  let ?f = "\<lparr>event_type = Modified, is_directory = False,
        src_path = str_of ''C:'' @ [92] @ str_of ''proj'' @ [92] @ str_of ''src'' @ [92] @
                   str_of ''main.py'',
        dest_path = None\<rparr>"
  let ?W = "\<lambda>(path::str) (start::str). Inr (drop (Suc (length start)) path) :: exn + str"
  let ?w = "\<lparr>exec_calls = [], logged = []\<rparr>"
  let ?ps = "[str_of ''src'', str_of ''main.py'']"
  let ?result = "(Inr () :: exn + unit,
    \<lparr>exec_calls =
       [\<lparr>container_name = str_of ''web'',
         argv = [str_of ''stat'', str_of ''-c'', str_of ''%a'', str_of ''/app/src/main.py''],
         privileged = True\<rparr>],
     logged = [Info_notifying (str_of ''web'') (str_of ''/app/src/main.py''),
               Error_non_zero_exit 1]\<rparr>)"
  have posix: "startswith (host_dir ?n) [47] \<and> startswith (container_dir ?n) [47] \<and> ?ps \<noteq> [] \<and>
      (\<forall>p \<in> set ?ps. plain p \<and> 92 \<notin> set p) \<and>
      (case dest_path ?e of Some d \<Rightarrow> d | None \<Rightarrow> src_path ?e) =
        host_dir ?n @ [47] @ str_join [47] ?ps"
    by (simp add: init_def plain_def str_of_def startswith_def)
  have windows: "?W (case dest_path ?f of Some d \<Rightarrow> d | None \<Rightarrow> src_path ?f) (host_dir ?m) =
        Inr (str_join [92] ?ps) \<and>
      ((92::nat) = 47 \<or> (92::nat) = 92) \<and> ?ps \<noteq> [] \<and>
      (\<forall>p \<in> set ?ps. p \<noteq> [] \<and> 47 \<notin> set p \<and> 92 \<notin> set p) \<and>
      startswith (container_dir ?m) [47]"
    by (simp add: init_def str_of_def startswith_def)
  have n: "notify ?n
      (container_dir ?n @ (if endswith (container_dir ?n) [47] then [] else [47]) @
       str_join [47] ?ps) ?w = ?result"
    by code_simp
  have m: "notify ?m
      (container_dir ?m @ (if endswith (container_dir ?m) [47] then [] else [47]) @
       str_join [47] ?ps) ?w = ?result"
    by code_simp
  have a: "change_handler_function (posix_relpath (str_of ''/'')) (?n, ?e) ?w = ?result"
    using change_handler_translates
      [THEN conjunct2, THEN conjunct2, rule_format,
       where cwd = "str_of ''/''" and self = ?n and e = ?e and w = ?w and ps = ?ps, OF posix]
    by (simp only: n)
  have b: "change_handler_function ?W (?m, ?f) ?w = ?result"
    using change_handler_translates
      [THEN conjunct2, THEN conjunct1, rule_format,
       where relpath = ?W and self = ?m and e = ?f and w = ?w and sep = 92 and ps = ?ps,
       OF windows]
    by (simp only: m)
  from a b show ?thesis by (rule conjI)
qed

text \<open>
  Claim C6.  For an event that carries a destination path, the change handler
  translates and notifies the destination path; the source path is not used.
\<close>

theorem move_uses_destination:
  assumes "dest_path e = Some d"
  shows "change_handler_function relpath (self, e) w =
     (case translate relpath (host_dir self) (container_dir self) d of
        Inl x \<Rightarrow> (Inl x, w)
      | Inr absolute_path \<Rightarrow> notify self absolute_path w)"
  using assms by (simp add: change_handler_function_def translate_def split: sum.splits)

theorem move_uses_destination_witness:
  "change_handler_function (posix_relpath (str_of ''/''))
     (init \<lparr>name = str_of ''web'', exec_run = (\<lambda>args priv. ExecResult 1 [])\<rparr>
        (str_of ''/H'') (str_of ''/app'') None,
      \<lparr>event_type = Moved, is_directory = False, src_path = str_of ''/H/a.txt'',
        dest_path = Some (str_of ''/H/b.txt'')\<rparr>)
     \<lparr>exec_calls = [], logged = []\<rparr> =
   (Inr (),
    \<lparr>exec_calls =
       [\<lparr>container_name = str_of ''web'',
         argv = [str_of ''stat'', str_of ''-c'', str_of ''%a'', str_of ''/app/b.txt''],
         privileged = True\<rparr>],
     logged = [Info_notifying (str_of ''web'') (str_of ''/app/b.txt''), Error_non_zero_exit 1]\<rparr>)"
proof -
  let ?self = "init \<lparr>name = str_of ''web'', exec_run = (\<lambda>args priv. ExecResult 1 [])\<rparr>
        (str_of ''/H'') (str_of ''/app'') None"
  let ?e = "\<lparr>event_type = Moved, is_directory = False, src_path = str_of ''/H/a.txt'',
        dest_path = Some (str_of ''/H/b.txt'')\<rparr>"
  have d: "dest_path ?e = Some (str_of ''/H/b.txt'')" by simp
  have dirs: "host_dir ?self = str_of ''/H''" "container_dir ?self = str_of ''/app''"
    by (simp_all add: init_def)
  have "notify ?self (str_of ''/app/b.txt'') \<lparr>exec_calls = [], logged = []\<rparr> =
   (Inr (),
    \<lparr>exec_calls =
       [\<lparr>container_name = str_of ''web'',
         argv = [str_of ''stat'', str_of ''-c'', str_of ''%a'', str_of ''/app/b.txt''],
         privileged = True\<rparr>],
     logged = [Info_notifying (str_of ''web'') (str_of ''/app/b.txt''), Error_non_zero_exit 1]\<rparr>)"
    by (simp add: notify_defs init_def)
  then show ?thesis
    using move_uses_destination [OF d, of "posix_relpath (str_of ''/'')" ?self
        "\<lparr>exec_calls = [], logged = []\<rparr>"]
    by (simp only: dirs translate_b sum.case)
qed

text \<open>
  Claim C7, as stated, fails: two distinct notifiers (containers \<open>web\<close> and \<open>db\<close>,
  different directories) share the gate's cell.  After the first has run its handler
  (completion reading 0.5), an invocation on the second at time 1 is suppressed, while
  the same invocation runs the handler when the first has not run.
\<close>

theorem gate_state_shared_counterexample:
  "fst (change_handler (posix_relpath (str_of ''/'')) (1, 3/2)
          (init \<lparr>name = str_of ''db'', exec_run = (\<lambda>args priv. ExecResult 1 [])\<rparr>
             (str_of ''/G'') (str_of ''/data'') None)
          \<lparr>event_type = Modified, is_directory = False, src_path = str_of ''/G/b.txt'',
            dest_path = None\<rparr>
          (snd (change_handler (posix_relpath (str_of ''/'')) (0, 1/2)
                  (init \<lparr>name = str_of ''web'', exec_run = (\<lambda>args priv. ExecResult 1 [])\<rparr>
                     (str_of ''/H'') (str_of ''/app'') None)
                  \<lparr>event_type = Modified, is_directory = False, src_path = str_of ''/H/a.txt'',
                    dest_path = None\<rparr>
                  (None, \<lparr>exec_calls = [], logged = []\<rparr>)))) = Inr None \<and>
   fst (change_handler (posix_relpath (str_of ''/'')) (1, 3/2)
          (init \<lparr>name = str_of ''db'', exec_run = (\<lambda>args priv. ExecResult 1 [])\<rparr>
             (str_of ''/G'') (str_of ''/data'') None)
          \<lparr>event_type = Modified, is_directory = False, src_path = str_of ''/G/b.txt'',
            dest_path = None\<rparr>
          (None, \<lparr>exec_calls = [], logged = []\<rparr>)) = Inr (Some ())"
  by code_simp

text \<open>
  Claim C7, amended.  The gate's state is shared by all instances: once an invocation
  on any instance has completed, an invocation on any instance (the same or another)
  that arrives less than 2 seconds after the completion reading is suppressed and
  changes nothing, and one that arrives 2 seconds or more after it runs the handler.
\<close>

theorem gate_shared_by_instances:
  "(\<forall>relpath ca a ea cb b eb s.
      completed (fst (change_handler relpath ca a ea s)) \<and> fst cb < snd ca + 2 \<longrightarrow>
      change_handler relpath cb b eb (snd (change_handler relpath ca a ea s)) =
        (Inr None, snd (change_handler relpath ca a ea s))) \<and>
   (\<forall>relpath ca a ea cb b eb s.
      completed (fst (change_handler relpath ca a ea s)) \<and> snd ca + 2 \<le> fst cb \<longrightarrow>
      executed (fst (change_handler relpath cb b eb (snd (change_handler relpath ca a ea s)))))"
proof (intro conjI allI impI, goal_cases)
  case (1 relpath ca a ea cb b eb s)
  then obtain w' where "snd (change_handler relpath ca a ea s) = (Some (snd ca), w')"
    using wrapped_completed_state [of 2 "change_handler_function relpath" ca "(a, ea)" s]
    by (auto simp: change_handler_def)
  with 1 show ?case by (simp add: change_handler_def wrapped_suppressed)
next
  case (2 relpath ca a ea cb b eb s)
  then obtain w' where "snd (change_handler relpath ca a ea s) = (Some (snd ca), w')"
    using wrapped_completed_state [of 2 "change_handler_function relpath" ca "(a, ea)" s]
    by (auto simp: change_handler_def)
  with 2 show ?case
    by (auto simp: change_handler_def wrapped_def split: prod.splits sum.splits)
qed

theorem gate_shared_by_instances_witness:
  "change_handler (posix_relpath (str_of ''/'')) (1, 3/2)
     (init \<lparr>name = str_of ''db'', exec_run = (\<lambda>args priv. ExecResult 1 [])\<rparr>
        (str_of ''/G'') (str_of ''/data'') None)
     \<lparr>event_type = Modified, is_directory = False, src_path = str_of ''/G/b.txt'', dest_path = None\<rparr>
     (snd (change_handler (posix_relpath (str_of ''/'')) (0, 1/2)
             (init \<lparr>name = str_of ''web'', exec_run = (\<lambda>args priv. ExecResult 1 [])\<rparr>
                (str_of ''/H'') (str_of ''/app'') None)
             \<lparr>event_type = Modified, is_directory = False, src_path = str_of ''/H/a.txt'',
               dest_path = None\<rparr>
             (None, \<lparr>exec_calls = [], logged = []\<rparr>))) =
   (Inr None, Some (1/2),
    \<lparr>exec_calls =
       [\<lparr>container_name = str_of ''web'',
         argv = [str_of ''stat'', str_of ''-c'', str_of ''%a'', str_of ''/app/a.txt''],
         privileged = True\<rparr>],
     logged = [Info_notifying (str_of ''web'') (str_of ''/app/a.txt''), Error_non_zero_exit 1]\<rparr>)"
proof -
  let ?R = "posix_relpath (str_of ''/'')"
  let ?a = "init \<lparr>name = str_of ''web'', exec_run = (\<lambda>args priv. ExecResult 1 [])\<rparr>
                (str_of ''/H'') (str_of ''/app'') None"
  let ?ea = "\<lparr>event_type = Modified, is_directory = False, src_path = str_of ''/H/a.txt'',
               dest_path = None\<rparr>"
  let ?s = "(None :: real option, \<lparr>exec_calls = [], logged = []\<rparr>)"
  have first: "change_handler ?R (0, 1/2) ?a ?ea ?s =
     (Inr (Some ()), Some (1/2),
      \<lparr>exec_calls =
         [\<lparr>container_name = str_of ''web'',
           argv = [str_of ''stat'', str_of ''-c'', str_of ''%a'', str_of ''/app/a.txt''],
           privileged = True\<rparr>],
       logged = [Info_notifying (str_of ''web'') (str_of ''/app/a.txt''), Error_non_zero_exit 1]\<rparr>)"
    by code_simp
  then have h: "completed (fst (change_handler ?R (0, 1/2) ?a ?ea ?s)) \<and>
      fst (1::real, 3/2::real) < snd (0::real, 1/2::real) + 2"
    by simp
  show ?thesis
    using gate_shared_by_instances [THEN conjunct1, rule_format, OF h] first by simp
qed

section \<open>Properties of the event filter\<close>

text \<open>
  Claim C8, as stated, fails: with no exclude patterns, the creation of the directory
  \<open>/H/sub\<close> reaches the change handler, which runs.
\<close>

theorem directory_event_dispatched:
  "fst (dispatch (\<lambda>path pat. glob pat path) (posix_relpath (str_of ''/'')) (0, 1/2)
          (init \<lparr>name = str_of ''web'', exec_run = (\<lambda>args priv. ExecResult 1 [])\<rparr>
             (str_of ''/H'') (str_of ''/app'') None)
          \<lparr>event_type = Created, is_directory = True, src_path = str_of ''/H/sub'',
            dest_path = None\<rparr>
          (None, \<lparr>exec_calls = [], logged = []\<rparr>)) = Some (Inr (Some ()))"
  by code_simp

text \<open>
  Claim C8, amended.  The handler is built with \<^verbatim>\<open>ignore_directories=False\<close>: a
  directory event is not ignored.  It reaches the gated change handler whenever it is
  not a deletion and one of its paths matches no exclude pattern, as a file event does.
\<close>

theorem directories_not_ignored:
  "dispatch matches relpath clock (init c H C pats) (e\<lparr>is_directory := True\<rparr>) s =
     (if event_type e \<noteq> Deleted \<and>
         match_any_paths matches (event_paths e)
           (ignore_patterns (event_handler (init c H C pats)))
      then (Some (fst (change_handler relpath clock (init c H C pats)
                         (e\<lparr>is_directory := True\<rparr>) s)),
            snd (change_handler relpath clock (init c H C pats) (e\<lparr>is_directory := True\<rparr>) s))
      else (None, s))"
  by (auto simp: dispatch_def passes_def init_def event_paths_def
           split: event_type.splits prod.splits)

text \<open>
  Claim C10, as stated, fails for a move: with the exclude pattern \<open>*.tmp\<close>, moving
  \<open>/H/a.py\<close> to \<open>/H/a.tmp\<close> is forwarded, because the source path matches no pattern,
  and the handler then notifies the excluded destination \<open>/app/a.tmp\<close>.
\<close>

theorem excluded_destination_notified:
  "glob (str_of ''*.tmp'') (str_of ''/H/a.tmp'') \<and>
   dispatch (\<lambda>path pat. glob pat path) (posix_relpath (str_of ''/'')) (0, 1/2)
      (init \<lparr>name = str_of ''web'', exec_run = (\<lambda>args priv. ExecResult 1 [])\<rparr>
         (str_of ''/H'') (str_of ''/app'') (Some [str_of ''*.tmp'']))
      \<lparr>event_type = Moved, is_directory = False, src_path = str_of ''/H/a.py'',
        dest_path = Some (str_of ''/H/a.tmp'')\<rparr>
      (None, \<lparr>exec_calls = [], logged = []\<rparr>) =
   (Some (Inr (Some ())), Some (1/2),
    \<lparr>exec_calls =
       [\<lparr>container_name = str_of ''web'',
         argv = [str_of ''stat'', str_of ''-c'', str_of ''%a'', str_of ''/app/a.tmp''],
         privileged = True\<rparr>],
     logged = [Info_notifying (str_of ''web'') (str_of ''/app/a.tmp''), Error_non_zero_exit 1]\<rparr>)"
  by code_simp

text \<open>
  Claim C10, amended.  An event is dropped when every path it carries (the source path
  and, for a move, the destination path) matches an exclude pattern; in particular an
  event without destination path whose source path matches a pattern is dropped.  A
  created, modified or moved event with a path that matches no exclude pattern is
  forwarded to the gated handler.  Passing no exclude patterns is the same as passing
  the empty list.
\<close>

theorem exclusion_filter:
  "(\<forall>matches relpath clock c H C pats e s.
      (\<forall>p \<in> set (event_paths e). \<exists>pat \<in> set pats. matches p pat) \<longrightarrow>
      dispatch matches relpath clock (init c H C (Some pats)) e s = (None, s)) \<and>
   (\<forall>matches relpath clock c H C pats e s.
      dest_path e = None \<and> (\<exists>pat \<in> set pats. matches (src_path e) pat) \<longrightarrow>
      dispatch matches relpath clock (init c H C (Some pats)) e s = (None, s)) \<and>
   (\<forall>matches relpath clock c H C pats e s.
      event_type e \<noteq> Deleted \<and>
      (\<exists>p \<in> set (event_paths e). \<forall>pat \<in> set pats. \<not> matches p pat) \<longrightarrow>
      dispatch matches relpath clock (init c H C (Some pats)) e s =
        (Some (fst (change_handler relpath clock (init c H C (Some pats)) e s)),
         snd (change_handler relpath clock (init c H C (Some pats)) e s))) \<and>
   (\<forall>c H C. init c H C None = init c H C (Some []))"
proof (intro conjI allI impI, goal_cases)
  case (1 matches relpath clock c H C pats e s)
  then show ?case
    by (auto simp: dispatch_def passes_def match_any_paths_def init_def list_ex_iff)
next
  case (2 matches relpath clock c H C pats e s)
  then show ?case
    by (auto simp: dispatch_def passes_def match_any_paths_def init_def list_ex_iff event_paths_def)
next
  case (3 matches relpath clock c H C pats e s)
  then have "passes matches (event_handler (init c H C (Some pats))) e"
    by (auto simp: passes_def match_any_paths_def init_def list_ex_iff)
  with 3 show ?case
    by (cases "event_type e") (simp_all add: dispatch_def split: prod.splits)
next
  case (4 c H C)
  show ?case by (simp add: init_def)
qed

theorem exclusion_filter_witness:
  "dispatch (\<lambda>path pat. glob pat path) (posix_relpath (str_of ''/'')) (0, 1/2)
      (init \<lparr>name = str_of ''web'', exec_run = (\<lambda>args priv. ExecResult 1 [])\<rparr>
         (str_of ''/H'') (str_of ''/app'') (Some [str_of ''*.tmp'']))
      \<lparr>event_type = Modified, is_directory = False, src_path = str_of ''/H/a.tmp'',
        dest_path = None\<rparr>
      (None, \<lparr>exec_calls = [], logged = []\<rparr>) =
     (None, None, \<lparr>exec_calls = [], logged = []\<rparr>) \<and>
   fst (dispatch (\<lambda>path pat. glob pat path) (posix_relpath (str_of ''/'')) (0, 1/2)
      (init \<lparr>name = str_of ''web'', exec_run = (\<lambda>args priv. ExecResult 1 [])\<rparr>
         (str_of ''/H'') (str_of ''/app'') (Some [str_of ''*.tmp'']))
      \<lparr>event_type = Modified, is_directory = False, src_path = str_of ''/H/a.py'',
        dest_path = None\<rparr>
      (None, \<lparr>exec_calls = [], logged = []\<rparr>)) = Some (Inr (Some ()))"
proof -
  let ?M = "\<lambda>path pat. glob pat path"
  let ?R = "posix_relpath (str_of ''/'')"
  let ?c = "\<lparr>name = str_of ''web'', exec_run = (\<lambda>args priv. ExecResult 1 [])\<rparr>"
  let ?tmp = "\<lparr>event_type = Modified, is_directory = False, src_path = str_of ''/H/a.tmp'',
        dest_path = None\<rparr>"
  let ?py = "\<lparr>event_type = Modified, is_directory = False, src_path = str_of ''/H/a.py'',
        dest_path = None\<rparr>"
  let ?s = "(None :: real option, \<lparr>exec_calls = [], logged = []\<rparr>)"
  have g: "glob (str_of ''*.tmp'') (str_of ''/H/a.tmp'')" and ng: "\<not> glob (str_of ''*.tmp'') (str_of ''/H/a.py'')"
    by code_simp+
  from g have h1: "dest_path ?tmp = None \<and> (\<exists>pat \<in> set [str_of ''*.tmp'']. ?M (src_path ?tmp) pat)"
    by simp
  have a: "dispatch ?M ?R (0, 1/2) (init ?c (str_of ''/H'') (str_of ''/app'') (Some [str_of ''*.tmp''])) ?tmp ?s = (None, ?s)"
    using exclusion_filter [THEN conjunct2, THEN conjunct1, rule_format,
        where matches = ?M and pats = "[str_of ''*.tmp'']" and e = ?tmp, OF h1] .
  from ng have h2: "event_type ?py \<noteq> Deleted \<and>
      (\<exists>p \<in> set (event_paths ?py). \<forall>pat \<in> set [str_of ''*.tmp'']. \<not> ?M p pat)"
    by (simp add: event_paths_def str_of_def)
  have run: "fst (change_handler ?R (0, 1/2)
      (init ?c (str_of ''/H'') (str_of ''/app'') (Some [str_of ''*.tmp''])) ?py ?s) = Inr (Some ())"
    by code_simp
  have b: "fst (dispatch ?M ?R (0, 1/2) (init ?c (str_of ''/H'') (str_of ''/app'') (Some [str_of ''*.tmp''])) ?py ?s) =
      Some (Inr (Some ()))"
    using exclusion_filter [THEN conjunct2, THEN conjunct2, THEN conjunct1, rule_format,
        where matches = ?M and pats = "[str_of ''*.tmp'']" and e = ?py, OF h2,
        of ?R "(0, 1/2)" ?c "str_of ''/H''" "str_of ''/app''" ?s] run
    by simp
  from a b show ?thesis by simp
qed

end
